theory Spec2Isabelle
  imports Main "HOL-Library.AList"
begin

section \<open>Python values used by \<^verbatim>\<open>api_server.py\<close>\<close>

text \<open>
  The server is Python. Its integers are unbounded (\<^typ>\<open>int\<close>), its strings are
  modelled as \<^typ>\<open>string\<close> (ASCII text: one \<^typ>\<open>char\<close> per code point), and an
  exception is a value: a function that can raise returns \<open>py_exn + 'a\<close>, with
  \<open>Inl\<close> for the exception.

  \<^item> \<open>ValueError s\<close>: \<^verbatim>\<open>int(s)\<close> on a string that is no integer literal;
  \<^item> \<open>KeyError k\<close>: \<^verbatim>\<open>d[k]\<close> on a dict without the key \<open>k\<close>;
  \<^item> \<open>Raised msg\<close>: any other \<^verbatim>\<open>Exception\<close>, raised by code outside this
    repository (the file system, the JSON reader, the Drive client), with
    \<^verbatim>\<open>str(e) = msg\<close>.
\<close>

datatype py_exn = ValueError string | KeyError string | Raised string

subsection \<open>Strings: \<^verbatim>\<open>str.split\<close>, \<^verbatim>\<open>str.join\<close>, \<^verbatim>\<open>str(int)\<close>, \<^verbatim>\<open>repr(str)\<close>\<close>

text \<open>
  \<^verbatim>\<open>s.split(c)\<close> for a one-character separator: the pieces between the
  separators, empty pieces included; the empty string gives one empty piece.
\<close>

fun split_on :: "char \<Rightarrow> string \<Rightarrow> string list" where
  "split_on c [] = [[]]"
| "split_on c (x # xs) =
     (if x = c then [] # split_on c xs
      else (case split_on c xs of
              [] \<Rightarrow> [[x]]
            | w # ws \<Rightarrow> (x # w) # ws))"

text \<open>\<^verbatim>\<open>sep.join(parts)\<close>.\<close>

fun join :: "string \<Rightarrow> string list \<Rightarrow> string" where
  "join sep [] = []"
| "join sep [x] = x"
| "join sep (x # y # ys) = x @ sep @ join sep (y # ys)"

text \<open>\<^verbatim>\<open>str(n)\<close> for an integer: decimal digits, a leading minus sign when negative.\<close>

definition digit_char :: "nat \<Rightarrow> char" where
  "digit_char d = char_of (48 + d)"

fun str_nat :: "nat \<Rightarrow> string" where
  "str_nat n = (if n < 10 then [digit_char n] else str_nat (n div 10) @ [digit_char (n mod 10)])"

declare str_nat.simps [simp del]

definition str_int :: "int \<Rightarrow> string" where
  "str_int i = (if i < 0 then CHR ''-'' # str_nat (nat (- i)) else str_nat (nat i))"

text \<open>
  \<^verbatim>\<open>repr(s)\<close> for an ASCII string: single quotes, unless the string has a single
  quote and no double quote; the quote character, the backslash and the control
  characters are escaped.
\<close>

definition hex_char :: "nat \<Rightarrow> char" where
  "hex_char d = (if d < 10 then char_of (48 + d) else char_of (87 + d))"

definition repr_char :: "char \<Rightarrow> char \<Rightarrow> string" where
  "repr_char quote c =
     (if c = quote \<or> c = CHR 0x5C then [CHR 0x5C, c]
      else if c = CHR 0x09 then [CHR 0x5C, CHR ''t'']
      else if c = CHR 0x0A then [CHR 0x5C, CHR ''n'']
      else if c = CHR 0x0D then [CHR 0x5C, CHR ''r'']
      else if (of_char c :: nat) < 32 \<or> (of_char c :: nat) = 127
        then [CHR 0x5C, CHR ''x'', hex_char ((of_char c :: nat) div 16), hex_char ((of_char c :: nat) mod 16)]
      else [c])"

definition py_repr :: "string \<Rightarrow> string" where
  "py_repr s =
     (let quote = (if CHR 0x27 \<in> set s \<and> CHR 0x22 \<notin> set s then CHR 0x22 else CHR 0x27)
      in quote # concat (map (repr_char quote) s) @ [quote])"

text \<open>\<^verbatim>\<open>str(e)\<close> for the exceptions above.\<close>

fun str_exn :: "py_exn \<Rightarrow> string" where
  "str_exn (ValueError s) = ''invalid literal for int() with base 10: '' @ py_repr s"
| "str_exn (KeyError k) = py_repr k"
| "str_exn (Raised msg) = msg"

subsection \<open>\<^verbatim>\<open>int(s)\<close> on a string\<close>

text \<open>
  \<^verbatim>\<open>int(s)\<close> in base 10, for ASCII input: surrounding whitespace is dropped, one
  sign is allowed, then come decimal digits, where single underscores may stand
  between two digits. Anything else raises \<^verbatim>\<open>ValueError\<close>. (The interpreter's
  configurable limit on the number of digits is not modelled.)
\<close>

definition is_space :: "char \<Rightarrow> bool" where
  "is_space c \<longleftrightarrow> c \<in> set [CHR 0x20, CHR 0x09, CHR 0x0A, CHR 0x0B, CHR 0x0C, CHR 0x0D]"

definition strip :: "string \<Rightarrow> string" where
  "strip s = rev (dropWhile is_space (rev (dropWhile is_space s)))"

definition is_digit :: "char \<Rightarrow> bool" where
  "is_digit c \<longleftrightarrow> (48::nat) \<le> of_char c \<and> (of_char c :: nat) \<le> 57"

definition digit_val :: "char \<Rightarrow> nat" where
  "digit_val c = of_char c - 48"

text \<open>The digits after the first one, with the value read so far.\<close>

fun digits_value :: "nat \<Rightarrow> string \<Rightarrow> nat option" where
  "digits_value acc [] = Some acc"
| "digits_value acc (c # cs) =
     (if is_digit c then digits_value (acc * 10 + digit_val c) cs
      else if c = CHR ''_'' then
        (case cs of
           [] \<Rightarrow> None
         | d # ds \<Rightarrow> if is_digit d then digits_value (acc * 10 + digit_val d) ds else None)
      else None)"

definition py_int :: "string \<Rightarrow> py_exn + int" where
  "py_int s =
     (let t = strip s;
          (negative, body) =
            (case t of
               [] \<Rightarrow> (False, t)
             | c # r \<Rightarrow> if c = CHR ''-'' then (True, r)
                        else if c = CHR ''+'' then (False, r)
                        else (False, t))
      in case body of
           [] \<Rightarrow> Inl (ValueError s)
         | c # cs \<Rightarrow>
             if is_digit c then
               (case digits_value (digit_val c) cs of
                  None \<Rightarrow> Inl (ValueError s)
                | Some n \<Rightarrow> Inr (if negative then - int n else int n))
             else Inl (ValueError s))"

subsection \<open>Dictionaries\<close>

text \<open>
  A dict that is iterated (\<^verbatim>\<open>.items()\<close>) is an association list in insertion
  order: \<^verbatim>\<open>d[k] = v\<close> is \<^const>\<open>AList.update\<close>, which replaces the value of a key in
  place and appends a new key at the end. \<^verbatim>\<open>d.get(k, dflt)\<close> and \<^verbatim>\<open>d[k]\<close>:
\<close>

definition dict_get :: "('k \<times> 'v) list \<Rightarrow> 'k \<Rightarrow> 'v \<Rightarrow> 'v" where
  "dict_get d k dflt = (case map_of d k of None \<Rightarrow> dflt | Some v \<Rightarrow> v)"

definition dict_item :: "(string \<times> 'v) list \<Rightarrow> string \<Rightarrow> py_exn + 'v" where
  "dict_item d k = (case map_of d k of None \<Rightarrow> Inl (KeyError k) | Some v \<Rightarrow> Inr v)"

section \<open>Document records\<close>

text \<open>
  A record of the remote file store, as the search returns it: a dict. The server
  reads one key of it, \<^verbatim>\<open>properties\<close>, which is absent or a dict from strings to
  strings (the properties of the store are string-valued). The other keys
  (\<^verbatim>\<open>id\<close>, \<^verbatim>\<open>name\<close>, \<^verbatim>\<open>mimeType\<close>, ...) are never read, only passed through;
  they are kept as text.
\<close>

record drive_file =
  other_keys :: "(string \<times> string) list"
  properties :: "(string \<rightharpoonup> string) option"

section \<open>The report aggregator: \<^verbatim>\<open>_generate_markdown_report\<close>\<close>

text \<open>
  The two tallies of the loop: \<^verbatim>\<open>categories\<close> and \<^verbatim>\<open>confidence_levels\<close>.
\<close>

type_synonym tallies = "(string \<times> int) list \<times> (string \<times> int) list"

text \<open>
  \<^verbatim>\<open>if cat: categories[cat] = categories.get(cat, 0) + 1\<close>
\<close>

definition count_category :: "string \<Rightarrow> (string \<times> int) list \<Rightarrow> (string \<times> int) list" where
  "count_category cat categories =
     (if cat \<noteq> [] then AList.update cat (dict_get categories cat 0 + 1) categories
      else categories)"

text \<open>\<^verbatim>\<open>confidence_levels[level] += 1\<close>\<close>

definition increment :: "string \<Rightarrow> (string \<times> int) list \<Rightarrow> py_exn + (string \<times> int) list" where
  "increment level confidence_levels =
     (case dict_item confidence_levels level of
        Inl e \<Rightarrow> Inl e
      | Inr n \<Rightarrow> Inr (AList.update level (n + 1) confidence_levels))"

text \<open>\<^verbatim>\<open>props = file.get('properties', {})\<close>\<close>

definition props_of :: "drive_file \<Rightarrow> (string \<rightharpoonup> string)" where
  "props_of file = (case properties file of None \<Rightarrow> Map.empty | Some p \<Rightarrow> p)"

text \<open>\<^verbatim>\<open>props.get('categories', '').split(',')\<close>\<close>

definition category_tokens :: "drive_file \<Rightarrow> string list" where
  "category_tokens file =
     split_on CHR '','' (case props_of file ''categories'' of None \<Rightarrow> [] | Some s \<Rightarrow> s)"

text \<open>\<^verbatim>\<open>confidence = int(props.get('overall_confidence', 0))\<close>\<close>

definition confidence_of :: "drive_file \<Rightarrow> py_exn + int" where
  "confidence_of file =
     (case props_of file ''overall_confidence'' of None \<Rightarrow> Inr 0 | Some s \<Rightarrow> py_int s)"

text \<open>The body of the loop, for one record.\<close>

definition tally_file :: "drive_file \<Rightarrow> tallies \<Rightarrow> py_exn + tallies" where
  "tally_file file t =
     (case t of (categories, confidence_levels) \<Rightarrow>
        let categories' = fold count_category (category_tokens file) categories
        in case confidence_of file of
             Inl e \<Rightarrow> Inl e
           | Inr confidence \<Rightarrow>
               (case (if confidence \<ge> 90 then increment ''HIGH'' confidence_levels
                      else if confidence \<ge> 70 then increment ''MEDIUM'' confidence_levels
                      else increment ''LOW'' confidence_levels) of
                  Inl e \<Rightarrow> Inl e
                | Inr confidence_levels' \<Rightarrow> Inr (categories', confidence_levels')))"

text \<open>\<^verbatim>\<open>for file in files: ...\<close>: an exception ends the loop.\<close>

fun tally_files :: "drive_file list \<Rightarrow> tallies \<Rightarrow> py_exn + tallies" where
  "tally_files [] t = Inr t"
| "tally_files (file # files) t =
     (case tally_file file t of
        Inl e \<Rightarrow> Inl e
      | Inr t' \<Rightarrow> tally_files files t')"

definition initial_tallies :: tallies where
  "initial_tallies = ([], [(''HIGH'', 0), (''MEDIUM'', 0), (''LOW'', 0)])"

text \<open>\<^verbatim>\<open>f"- {key}: {count}"\<close>, for the entries of a tally.\<close>

definition tally_line :: "string \<times> int \<Rightarrow> string" where
  "tally_line entry = (case entry of (key, count) \<Rightarrow> ''- '' @ key @ '': '' @ str_int count)"

text \<open>
  The whole function. \<open>now\<close> is what \<^verbatim>\<open>datetime.now().isoformat()\<close> returns when
  the report is built.
\<close>

definition generate_markdown_report :: "string \<Rightarrow> drive_file list \<Rightarrow> py_exn + string" where
  "generate_markdown_report now files =
     (let report_parts =
            [''# Document Classification Report'',
             ''\<newline>Generated: '' @ now,
             ''\<newline>Total Documents: '' @ str_int (int (length files)),
             ''\<newline>## Summary'']
      in case tally_files files initial_tallies of
           Inl e \<Rightarrow> Inl e
         | Inr (categories, confidence_levels) \<Rightarrow>
             Inr (join ''\<newline>''
                   (report_parts @
                    [''\<newline>### Categories''] @ map tally_line categories @
                    [''\<newline>### Confidence Levels''] @ map tally_line confidence_levels)))"

section \<open>The HTTP endpoints\<close>

subsection \<open>Configuration, the collaborator and its credentials\<close>

text \<open>\<^verbatim>\<open>class Config\<close>, read from the environment once at start.\<close>

record config =
  cache_duration_days :: int
  max_results_per_page :: int
  supported_mime_types :: "string list"
  processor_url :: "string option"

text \<open>
  The collaborator is the Drive client. One search is
  \<^verbatim>\<open>service.files().list(q=..., spaces=..., fields=..., pageToken=..., pageSize=...).execute()\<close>:
  the keyword arguments are a \<open>list_request\<close> (\<open>None\<close> for an argument that is
  not passed or is \<^verbatim>\<open>None\<close>), the answer is a dict with the optional keys
  \<^verbatim>\<open>files\<close> and \<^verbatim>\<open>nextPageToken\<close>.
\<close>

record list_request =
  q :: "string option"
  spaces :: "string option"
  request_fields :: "string option"
  pageToken :: "string option"
  pageSize :: "int option"

record list_response =
  files_entry :: "drive_file list option"
  nextPageToken :: "string option"

text \<open>
  The client is outside this repository, so it is a parameter: a function from the
  request and the state \<open>'w\<close> of the remote store to the answer (or the exception
  that \<^verbatim>\<open>execute\<close> raises) and the next state. The server's side of the
  conversation records every search it has executed.
\<close>

type_synonym 'w service = "list_request \<Rightarrow> 'w \<Rightarrow> (py_exn + list_response) \<times> 'w"

record 'w drive =
  issued :: "list_request list"
  remote :: 'w

definition execute ::
  "'w service \<Rightarrow> list_request \<Rightarrow> 'w drive \<Rightarrow> (py_exn + list_response) \<times> 'w drive" where
  "execute service request d =
     (case service request (remote d) of
        (answer, w) \<Rightarrow> (answer, \<lparr>issued = issued d @ [request], remote = w\<rparr>))"

text \<open>
  What a handler ends with when it does not return: the \<^verbatim>\<open>HTTPException\<close> it
  raised (status code and detail), or an exception that nothing in the handler
  caught.
\<close>

datatype failure = HTTPException int string | Unhandled py_exn

text \<open>
  The credential material: whether \<^verbatim>\<open>os.path.exists(token_path)\<close> holds, and what
  opening the file, \<^verbatim>\<open>json.load\<close>, \<^verbatim>\<open>Credentials.from_authorized_user_info\<close> and
  \<^verbatim>\<open>build\<close> give: the client, or the exception one of them raises.
\<close>

record 'w credentials =
  token_exists :: bool
  load_service :: "py_exn + 'w service"

definition get_drive_service :: "'w credentials \<Rightarrow> failure + 'w service" where
  "get_drive_service env =
     (if \<not> token_exists env then Inl (HTTPException 500 ''Google OAuth token not found'')
      else (case load_service env of
              Inl e \<Rightarrow> Inl (Unhandled e)
            | Inr service \<Rightarrow> Inr service))"

text \<open>\<^verbatim>\<open>response.get('files', [])\<close>\<close>

definition files_of :: "list_response \<Rightarrow> drive_file list" where
  "files_of response = (case files_entry response of None \<Rightarrow> [] | Some fs \<Rightarrow> fs)"

text \<open>\<^verbatim>\<open>f"mimeType = '{mime}'"\<close>\<close>

definition mime_clause :: "string \<Rightarrow> string" where
  "mime_clause mime = ''mimeType = '' @ [CHR 0x27] @ mime @ [CHR 0x27]"

definition classified_clause :: string where
  "classified_clause = ''properties has { key='classified' and value='true' }''"

subsection \<open>\<^verbatim>\<open>GET /documents\<close>\<close>

record DocumentList =
  documents :: "drive_file list"
  next_page_token :: "string option"
  total_count :: int

text \<open>The query and the request that \<^verbatim>\<open>list_documents\<close> builds.\<close>

definition documents_query :: "config \<Rightarrow> string option \<Rightarrow> bool \<Rightarrow> string option" where
  "documents_query cfg folder_id include_processed =
     (let query_parts = [];
          query_parts =
            (case folder_id of
               None \<Rightarrow> query_parts
             | Some fid \<Rightarrow>
                 if fid \<noteq> [] then query_parts @ [[CHR 0x27] @ fid @ [CHR 0x27] @ '' in parents'']
                 else query_parts);
          query_parts =
            (if supported_mime_types cfg \<noteq> []
             then query_parts @
                    [''('' @ join '' or '' (map mime_clause (supported_mime_types cfg)) @ '')'']
             else query_parts);
          query_parts =
            (if \<not> include_processed then query_parts @ [''not '' @ classified_clause]
             else query_parts)
      in if query_parts \<noteq> [] then Some (join '' and '' query_parts) else None)"

definition documents_request ::
  "config \<Rightarrow> string option \<Rightarrow> string option \<Rightarrow> int \<Rightarrow> bool \<Rightarrow> list_request" where
  "documents_request cfg folder_id page_token page_size include_processed =
     \<lparr>q = documents_query cfg folder_id include_processed,
      spaces = Some ''drive'',
      request_fields =
        Some ''nextPageToken, files(id, name, mimeType, createdTime, modifiedTime, owners, size)'',
      pageToken = page_token,
      pageSize = Some (min page_size (max_results_per_page cfg))\<rparr>"

definition list_documents ::
  "config \<Rightarrow> 'w credentials \<Rightarrow> string option \<Rightarrow> string option \<Rightarrow> int \<Rightarrow> bool \<Rightarrow>
     'w drive \<Rightarrow> (failure + DocumentList) \<times> 'w drive" where
  "list_documents cfg env folder_id page_token page_size include_processed d =
     (case get_drive_service env of
        Inl e \<Rightarrow> (Inl e, d)
      | Inr service \<Rightarrow>
          (case execute service
                  (documents_request cfg folder_id page_token page_size include_processed) d of
             (Inl e, d') \<Rightarrow> (Inl (HTTPException 500 (str_exn e)), d')
           | (Inr response, d') \<Rightarrow>
               (Inr \<lparr>documents = files_of response,
                     next_page_token = nextPageToken response,
                     total_count = int (length (files_of response))\<rparr>, d')))"

subsection \<open>\<^verbatim>\<open>GET /status\<close>\<close>

record StatusResponse =
  total_documents :: int
  classified_count :: int
  pending_count :: int
  last_update :: string

definition total_request :: "config \<Rightarrow> list_request" where
  "total_request cfg =
     \<lparr>q = Some (join '' or '' (map mime_clause (supported_mime_types cfg))),
      spaces = None, request_fields = Some ''files(id)'', pageToken = None, pageSize = None\<rparr>"

definition classified_request :: list_request where
  "classified_request =
     \<lparr>q = Some classified_clause,
      spaces = None, request_fields = Some ''files(id)'', pageToken = None, pageSize = None\<rparr>"

text \<open>\<open>now\<close> is \<^verbatim>\<open>datetime.now().isoformat()\<close> at the end of the handler.\<close>

definition get_status ::
  "config \<Rightarrow> 'w credentials \<Rightarrow> string \<Rightarrow> 'w drive \<Rightarrow> (failure + StatusResponse) \<times> 'w drive" where
  "get_status cfg env now d =
     (case get_drive_service env of
        Inl e \<Rightarrow> (Inl e, d)
      | Inr service \<Rightarrow>
          (case execute service (total_request cfg) d of
             (Inl e, d') \<Rightarrow> (Inl (HTTPException 500 (str_exn e)), d')
           | (Inr total_response, d') \<Rightarrow>
               (case execute service classified_request d' of
                  (Inl e, d'') \<Rightarrow> (Inl (HTTPException 500 (str_exn e)), d'')
                | (Inr classified_response, d'') \<Rightarrow>
                    (let total_count = int (length (files_of total_response));
                         classified_count = int (length (files_of classified_response))
                     in (Inr \<lparr>total_documents = total_count,
                               classified_count = classified_count,
                               pending_count = total_count - classified_count,
                               last_update = now\<rparr>, d'')))))"

subsection \<open>\<^verbatim>\<open>GET /report\<close>\<close>

record ReportResponse =
  report_content :: string
  generated_at :: string
  format :: string

definition report_query :: "string option \<Rightarrow> string option \<Rightarrow> string" where
  "report_query start_date end_date =
     (let query_parts = [classified_clause];
          query_parts =
            (case start_date of
               None \<Rightarrow> query_parts
             | Some sd \<Rightarrow>
                 if sd \<noteq> []
                 then query_parts @ [''modifiedTime >= '' @ [CHR 0x27] @ sd @ [CHR 0x27]]
                 else query_parts);
          query_parts =
            (case end_date of
               None \<Rightarrow> query_parts
             | Some ed \<Rightarrow>
                 if ed \<noteq> []
                 then query_parts @ [''modifiedTime <= '' @ [CHR 0x27] @ ed @ [CHR 0x27]]
                 else query_parts)
      in join '' and '' query_parts)"

definition report_request :: "string option \<Rightarrow> string option \<Rightarrow> list_request" where
  "report_request start_date end_date =
     \<lparr>q = Some (report_query start_date end_date),
      spaces = None, request_fields = Some ''files(id, name, properties)'',
      pageToken = None, pageSize = Some 1000\<rparr>"

text \<open>
  \<open>json_dumps\<close> is the standard library's \<^verbatim>\<open>json.dumps(_, indent=2)\<close> on a record
  list, a parameter; it returns for every record list, since the records came out
  of a JSON answer. \<open>now_report\<close> is the clock as \<^verbatim>\<open>_generate_markdown_report\<close>
  reads it, \<open>now\<close> as the handler reads it for \<^verbatim>\<open>generated_at\<close>. The
  \<^verbatim>\<open>except Exception\<close> of the handler also catches what the report generator
  raises.
\<close>

definition get_report ::
  "(drive_file list \<Rightarrow> string) \<Rightarrow> 'w credentials \<Rightarrow> string \<Rightarrow> string \<Rightarrow>
     string \<Rightarrow> string option \<Rightarrow> string option \<Rightarrow>
     'w drive \<Rightarrow> (failure + ReportResponse) \<times> 'w drive" where
  "get_report json_dumps env now_report now fmt start_date end_date d =
     (case get_drive_service env of
        Inl e \<Rightarrow> (Inl e, d)
      | Inr service \<Rightarrow>
          (case execute service (report_request start_date end_date) d of
             (Inl e, d') \<Rightarrow> (Inl (HTTPException 500 (str_exn e)), d')
           | (Inr response, d') \<Rightarrow>
               (case (if fmt = ''markdown''
                      then generate_markdown_report now_report (files_of response)
                      else Inr (json_dumps (files_of response))) of
                  Inl e \<Rightarrow> (Inl (HTTPException 500 (str_exn e)), d')
                | Inr content \<Rightarrow>
                    (Inr \<lparr>report_content = content, generated_at = now, format = fmt\<rparr>, d'))))"

section \<open>The specification's vocabulary\<close>

text \<open>
  The definitions of this section follow the words of the specification, not the
  code; the theorems below compare the code with them.

  The confidence buckets: confidence \<open>\<ge> 90\<close> is HIGH, \<open>70 \<le>\<close> confidence \<open>< 90\<close>
  is MEDIUM, anything else is LOW.
\<close>

definition spec_bucket :: "int \<Rightarrow> string" where
  "spec_bucket c =
     (if c \<ge> 90 then ''HIGH'' else if 70 \<le> c \<and> c < 90 then ''MEDIUM'' else ''LOW'')"

text \<open>A record is in a bucket when its confidence is read and falls there.\<close>

definition in_bucket :: "string \<Rightarrow> drive_file \<Rightarrow> bool" where
  "in_bucket level f =
     (case confidence_of f of Inl e \<Rightarrow> False | Inr c \<Rightarrow> spec_bucket c = level)"

definition bucket_count :: "string \<Rightarrow> drive_file list \<Rightarrow> int" where
  "bucket_count level files = int (length (filter (in_bucket level) files))"

text \<open>
  The category tokens of a record: its \<^verbatim>\<open>categories\<close> property split on commas,
  empty tokens discarded; and those of a record list, one after the other.
\<close>

definition nonempty_tokens :: "drive_file \<Rightarrow> string list" where
  "nonempty_tokens f = filter (\<lambda>tok. tok \<noteq> []) (category_tokens f)"

definition all_tokens :: "drive_file list \<Rightarrow> string list" where
  "all_tokens files = concat (map nonempty_tokens files)"

text \<open>
  The \<^verbatim>\<open>overall_confidence\<close> property of a record is missing, or \<^verbatim>\<open>int\<close>
  accepts it.
\<close>

definition confidence_parses :: "drive_file \<Rightarrow> bool" where
  "confidence_parses f =
     (case props_of f ''overall_confidence'' of
        None \<Rightarrow> True
      | Some s \<Rightarrow> (case py_int s of Inl e \<Rightarrow> False | Inr c \<Rightarrow> True))"

text \<open>A record with the given properties and no other key.\<close>

definition record_of :: "(string \<times> string) list \<Rightarrow> drive_file" where
  "record_of props = \<lparr>other_keys = [], properties = Some (map_of props)\<rparr>"

text \<open>
  Examples of the server's surroundings: credentials that load a given client, a
  configuration, a store that answers the \<open>n\<close>-th search with \<open>n\<close> records, a
  store whose every search raises, and one whose second search raises.
\<close>

definition example_credentials :: "nat service \<Rightarrow> nat credentials" where
  "example_credentials service = \<lparr>token_exists = True, load_service = Inr service\<rparr>"

definition example_config :: config where
  "example_config =
     \<lparr>cache_duration_days = 7, max_results_per_page = 100,
      supported_mime_types = [''text/plain''], processor_url = None\<rparr>"

definition growing_store :: "nat service" where
  "growing_store request n =
     (Inr \<lparr>files_entry = Some (replicate (Suc n) (record_of [])), nextPageToken = None\<rparr>, Suc n)"

definition failing_store :: "nat service" where
  "failing_store request n = (Inl (Raised ''API Error''), n)"

definition fails_second :: "nat service" where
  "fails_second request n =
     (if n = 0 then (Inr \<lparr>files_entry = None, nextPageToken = None\<rparr>, Suc n)
      else (Inl (Raised ''API Error''), n))"

section \<open>Properties of the string functions\<close>

text \<open>
  \<^const>\<open>split_on\<close> is the inverse of joining with the separator, no piece holds the
  separator, and there is one piece more than there are separators.
\<close>

lemma split_on_nonempty: "split_on c s \<noteq> []"
  by (induction s) (auto split: list.splits)

lemma join_split_on: "join [c] (split_on c s) = s"
proof (induction s)
  case Nil
  show ?case by simp
next
  case (Cons x xs)
  obtain w ws where w: "split_on c xs = w # ws"
    using split_on_nonempty [of c xs] by (cases "split_on c xs") auto
  show ?case
  proof (cases "x = c")
    case True
    with Cons w show ?thesis by simp
  next
    case False
    with Cons w show ?thesis by (cases ws) auto
  qed
qed

lemma split_on_no_sep: "t \<in> set (split_on c s) \<Longrightarrow> c \<notin> set t"
  by (induction s arbitrary: t) (auto split: list.splits if_splits)

lemma length_split_on: "length (split_on c s) = Suc (count_list s c)"
  by (induction s) (auto split: list.splits)

text \<open>The ten digits, for evaluating \<^const>\<open>str_int\<close>.\<close>

lemma digit_chars:
  "digit_char 0 = CHR ''0''" "digit_char (Suc 0) = CHR ''1''" "digit_char 1 = CHR ''1''"
  "digit_char 2 = CHR ''2''" "digit_char 3 = CHR ''3''" "digit_char 4 = CHR ''4''"
  "digit_char 5 = CHR ''5''" "digit_char 6 = CHR ''6''" "digit_char 7 = CHR ''7''"
  "digit_char 8 = CHR ''8''" "digit_char 9 = CHR ''9''"
  by (simp_all add: digit_char_def char_of_def bit_Suc_0_iff)

text \<open>
  \<^const>\<open>str_int\<close> and \<^const>\<open>py_int\<close> agree: the decimal string of an integer is
  read back as that integer.
\<close>

lemma is_digit_digit_char: "d < 10 \<Longrightarrow> is_digit (digit_char d)"
  by (simp add: is_digit_def digit_char_def)

lemma digit_val_digit_char: "d < 10 \<Longrightarrow> digit_val (digit_char d) = d"
  by (simp add: digit_val_def digit_char_def)

lemma str_nat_unfold:
  "str_nat n = (if n < 10 then [digit_char n] else str_nat (n div 10) @ [digit_char (n mod 10)])"
  by (rule str_nat.simps)


lemma str_nat_digits: "c \<in> set (str_nat n) \<Longrightarrow> is_digit c"
proof (induction n arbitrary: c rule: str_nat.induct)
  case (1 n)
  show ?case
  proof (cases "n < 10")
    case True
    with "1.prems" show ?thesis
      by (subst (asm) str_nat_unfold) (simp add: is_digit_digit_char)
  next
    case False
    with "1.prems" have "c \<in> set (str_nat (n div 10)) \<or> c = digit_char (n mod 10)"
      by (subst (asm) str_nat_unfold) auto
    with False "1.IH" show ?thesis
      by (auto simp: is_digit_digit_char)
  qed
qed

lemma str_nat_nonempty: "str_nat n \<noteq> []"
  by (subst str_nat_unfold) simp

lemma digits_value_digits:
  "(\<And>c. c \<in> set cs \<Longrightarrow> is_digit c) \<Longrightarrow>
     digits_value acc cs = Some (fold (\<lambda>c a. a * 10 + digit_val c) cs acc)"
  by (induction cs arbitrary: acc) simp_all

lemma fold_str_nat:
  "fold (\<lambda>c a. a * 10 + digit_val c) (str_nat n) acc = acc * 10 ^ length (str_nat n) + n"
proof (induction n arbitrary: acc rule: str_nat.induct)
  case (1 n)
  show ?case
  proof (cases "n < 10")
    case True
    then show ?thesis
      by (subst (1 2) str_nat_unfold) (simp add: digit_val_digit_char)
  next
    case False
    then have "fold (\<lambda>c a. a * 10 + digit_val c) (str_nat n) acc =
        (acc * 10 ^ length (str_nat (n div 10)) + n div 10) * 10 + n mod 10"
      by (subst str_nat_unfold) (simp add: "1.IH" digit_val_digit_char)
    also have "\<dots> = acc * 10 ^ length (str_nat n) + n"
      using False by (subst (2) str_nat_unfold) (simp add: algebra_simps)
    finally show ?thesis .
  qed
qed

lemma not_space_digit: "is_digit c \<Longrightarrow> \<not> is_space c"
  by (auto simp: is_digit_def is_space_def)

lemma strip_unchanged:
  assumes "s \<noteq> []" and "\<not> is_space (hd s)" and "\<not> is_space (last s)"
  shows "strip s = s"
proof -
  from assms have "dropWhile is_space s = s"
    by (cases s) simp_all
  moreover from assms have "dropWhile is_space (rev s) = rev s"
    by (cases "rev s") (simp_all add: hd_rev [symmetric])
  ultimately show ?thesis by (simp add: strip_def)
qed

lemma py_int_str_nat: "py_int (str_nat n) = Inr (int n)"
proof -
  obtain c cs where s: "str_nat n = c # cs"
    using str_nat_nonempty [of n] by (cases "str_nat n") auto
  have digits: "\<And>x. x \<in> set (c # cs) \<Longrightarrow> is_digit x"
    using str_nat_digits [of _ n] s by simp
  then have c: "is_digit c" and "is_digit (last (c # cs))"
    by simp_all
  then have strip: "strip (c # cs) = c # cs"
    by (intro strip_unchanged) (simp_all add: not_space_digit)
  from c have sign: "c \<noteq> CHR ''-''" "c \<noteq> CHR ''+''"
    by (auto simp: is_digit_def)
  have "digits_value (digit_val c) cs = Some (fold (\<lambda>c a. a * 10 + digit_val c) (c # cs) 0)"
    using digits by (simp add: digits_value_digits)
  also have "\<dots> = Some n"
    using fold_str_nat [of n 0] s by simp
  finally show ?thesis
    using s strip sign c by (simp add: py_int_def)
qed

lemma py_int_minus_str_nat: "0 < n \<Longrightarrow> py_int (CHR ''-'' # str_nat n) = Inr (- int n)"
proof -
  assume "0 < n"
  obtain c cs where s: "str_nat n = c # cs"
    using str_nat_nonempty [of n] by (cases "str_nat n") auto
  have digits: "\<And>x. x \<in> set (c # cs) \<Longrightarrow> is_digit x"
    using str_nat_digits [of _ n] s by simp
  then have c: "is_digit c" and "is_digit (last (c # cs))"
    by simp_all
  then have "\<not> is_space (last (CHR ''-'' # c # cs))"
    by (simp add: not_space_digit)
  moreover have "\<not> is_space (hd (CHR ''-'' # c # cs))"
    by (simp add: is_space_def)
  ultimately have strip: "strip (CHR ''-'' # c # cs) = CHR ''-'' # c # cs"
    by (intro strip_unchanged) simp_all
  have "digits_value (digit_val c) cs = Some (fold (\<lambda>c a. a * 10 + digit_val c) (c # cs) 0)"
    using digits by (simp add: digits_value_digits)
  also have "\<dots> = Some n"
    using fold_str_nat [of n 0] s by simp
  finally show ?thesis
    using s strip c by (simp add: py_int_def)
qed

lemma py_int_str_int: "py_int (str_int i) = Inr i"
proof (cases "i < 0")
  case True
  then have "0 < nat (- i)" by simp
  from py_int_minus_str_nat [OF this] True show ?thesis
    by (simp add: str_int_def)
next
  case False
  with py_int_str_nat [of "nat i"] show ?thesis
    by (simp add: str_int_def)
qed



section \<open>The loop of the aggregator\<close>

text \<open>
  One record, from a tally with the three levels: the categories are counted and one
  level is incremented. A record whose confidence does not parse ends the loop.
\<close>

lemma tally_file_step:
  assumes "confidence_of f = Inr c"
  shows "tally_file f (cats, [(''HIGH'', h), (''MEDIUM'', m), (''LOW'', l)]) =
           Inr (fold count_category (category_tokens f) cats,
                [(''HIGH'', h + (if c \<ge> 90 then 1 else 0)),
                 (''MEDIUM'', m + (if 70 \<le> c \<and> c < 90 then 1 else 0)),
                 (''LOW'', l + (if c < 70 then 1 else 0))])"
  using assms by (simp add: tally_file_def increment_def dict_item_def)

lemma tally_file_raises:
  assumes "confidence_of f = Inl e"
  shows "tally_file f t = Inl e"
  using assms by (simp add: tally_file_def split: prod.splits)

lemma in_bucket_cases:
  assumes "confidence_of f = Inr c"
  shows "in_bucket ''HIGH'' f \<longleftrightarrow> c \<ge> 90"
    and "in_bucket ''MEDIUM'' f \<longleftrightarrow> 70 \<le> c \<and> c < 90"
    and "in_bucket ''LOW'' f \<longleftrightarrow> c < 70"
  using assms by (auto simp: in_bucket_def spec_bucket_def)

lemma tally_files_returns:
  assumes "\<forall>f \<in> set files. \<not> isl (confidence_of f)"
  shows "tally_files files (cats, [(''HIGH'', h), (''MEDIUM'', m), (''LOW'', l)]) =
           Inr (fold (\<lambda>f. fold count_category (category_tokens f)) files cats,
                [(''HIGH'', h + bucket_count ''HIGH'' files),
                 (''MEDIUM'', m + bucket_count ''MEDIUM'' files),
                 (''LOW'', l + bucket_count ''LOW'' files)])"
  using assms
proof (induction files arbitrary: cats h m l)
  case Nil
  show ?case by (simp add: bucket_count_def)
next
  case (Cons f files)
  from Cons.prems obtain c where c: "confidence_of f = Inr c"
    by (cases "confidence_of f") auto
  from Cons.prems have rest: "\<forall>g \<in> set files. \<not> isl (confidence_of g)"
    by simp
  show ?case
    by (simp add: tally_file_step [OF c] Cons.IH [OF rest] bucket_count_def in_bucket_cases [OF c])
qed

lemma tally_files_raises:
  assumes "f \<in> set files" and "isl (confidence_of f)"
  shows "isl (tally_files files t)"
  using assms
proof (induction files arbitrary: t)
  case Nil
  then show ?case by simp
next
  case (Cons g files)
  show ?case
  proof (cases "confidence_of g")
    case (Inl e)
    then show ?thesis by (simp add: tally_file_raises)
  next
    case (Inr c)
    with Cons.prems have "f \<in> set files" by auto
    from Cons.IH [OF this Cons.prems(2)] show ?thesis
      by (cases "tally_file g t") auto
  qed
qed

lemma bucket_count_sum:
  assumes "\<forall>f \<in> set files. \<not> isl (confidence_of f)"
  shows "bucket_count ''HIGH'' files + bucket_count ''MEDIUM'' files + bucket_count ''LOW'' files
           = int (length files)"
  using assms
proof (induction files)
  case Nil
  show ?case by (simp add: bucket_count_def)
next
  case (Cons f files)
  from Cons.prems obtain c where c: "confidence_of f = Inr c"
    by (cases "confidence_of f") auto
  from Cons show ?case
    by (auto simp: bucket_count_def in_bucket_cases [OF c])
qed

lemma confidence_parses_iff: "confidence_parses f \<longleftrightarrow> \<not> isl (confidence_of f)"
  by (simp add: confidence_parses_def confidence_of_def split: option.splits sum.splits)




subsection \<open>The category tally\<close>

lemma dict_get_count_category:
  "dict_get (count_category tok cats) k 0 =
     dict_get cats k 0 + (if tok \<noteq> [] \<and> tok = k then 1 else 0)"
  by (simp add: count_category_def dict_get_def update_conv')

lemma keys_count_category:
  "fst ` set (count_category tok cats) =
     (if tok \<noteq> [] then insert tok (fst ` set cats) else fst ` set cats)"
  by (simp add: count_category_def dom_update)

lemma distinct_count_category:
  "distinct (map fst cats) \<Longrightarrow> distinct (map fst (count_category tok cats))"
  by (simp add: count_category_def distinct_update)

lemma dict_get_fold_count_category:
  "dict_get (fold count_category toks cats) k 0 =
     dict_get cats k 0 + int (count_list (filter (\<lambda>tok. tok \<noteq> []) toks) k)"
  by (induction toks arbitrary: cats) (simp_all add: dict_get_count_category)

lemma keys_fold_count_category:
  "fst ` set (fold count_category toks cats) =
     fst ` set cats \<union> set (filter (\<lambda>tok. tok \<noteq> []) toks)"
  by (induction toks arbitrary: cats) (auto simp: keys_count_category)

lemma distinct_fold_count_category:
  "distinct (map fst cats) \<Longrightarrow> distinct (map fst (fold count_category toks cats))"
  by (induction toks arbitrary: cats) (simp_all add: distinct_count_category)

lemma fold_files_concat:
  "fold (\<lambda>f. fold count_category (category_tokens f)) files cats =
     fold count_category (concat (map category_tokens files)) cats"
  by (induction files arbitrary: cats) simp_all

lemma all_tokens_concat:
  "all_tokens files = filter (\<lambda>tok. tok \<noteq> []) (concat (map category_tokens files))"
  by (simp add: all_tokens_def nonempty_tokens_def [abs_def] filter_concat comp_def)

lemma map_of_fold_files:
  "map_of (fold (\<lambda>f. fold count_category (category_tokens f)) files []) k =
     (if k \<in> set (all_tokens files) then Some (int (count_list (all_tokens files) k)) else None)"
proof -
  let ?cats = "fold count_category (concat (map category_tokens files)) []"
  have keys: "fst ` set ?cats = set (all_tokens files)"
    by (simp add: keys_fold_count_category all_tokens_concat)
  have "dict_get [] k 0 = (0::int)"
    by (simp add: dict_get_def)
  then have val: "dict_get ?cats k 0 = int (count_list (all_tokens files) k)"
    by (simp add: dict_get_fold_count_category all_tokens_concat)
  show ?thesis
  proof (cases "k \<in> set (all_tokens files)")
    case True
    with keys have "k \<in> fst ` set ?cats" by simp
    then obtain v where v: "map_of ?cats k = Some v"
      by (cases "map_of ?cats k") (auto simp: map_of_eq_None_iff)
    with val have "v = int (count_list (all_tokens files) k)"
      by (simp add: dict_get_def)
    with v True show ?thesis by (simp add: fold_files_concat)
  next
    case False
    with keys have "k \<notin> fst ` set ?cats" by simp
    then have "map_of ?cats k = None" by (simp add: map_of_eq_None_iff)
    with False show ?thesis by (simp add: fold_files_concat)
  qed
qed

lemma distinct_fold_files:
  "distinct (map fst (fold (\<lambda>f. fold count_category (category_tokens f)) files []))"
  by (simp add: fold_files_concat distinct_fold_count_category)

lemma tally_files_Inr_parses:
  assumes "tally_files files t = Inr t'"
  shows "\<forall>f \<in> set files. \<not> isl (confidence_of f)"
proof
  fix f assume f: "f \<in> set files"
  show "\<not> isl (confidence_of f)"
  proof
    assume "isl (confidence_of f)"
    from tally_files_raises [OF f this, of t] assms show False by simp
  qed
qed

lemma category_tally:
  assumes "tally_files files initial_tallies = Inr (cats, cl)"
  shows "map_of cats tok =
           (if tok \<in> set (all_tokens files) then Some (int (count_list (all_tokens files) tok)) else None)"
    and "distinct (map fst cats)"
proof -
  from assms have p: "\<forall>f \<in> set files. \<not> isl (confidence_of f)"
    by (rule tally_files_Inr_parses)
  from tally_files_returns [OF p, of "[]" 0 0 0] assms
  have "cats = fold (\<lambda>f. fold count_category (category_tokens f)) files []"
    by (simp add: initial_tallies_def)
  then show "map_of cats tok =
           (if tok \<in> set (all_tokens files) then Some (int (count_list (all_tokens files) tok)) else None)"
    and "distinct (map fst cats)"
    by (simp_all add: map_of_fold_files distinct_fold_files)
qed

lemma no_tokens:
  "props_of f ''categories'' = None \<or> props_of f ''categories'' = Some [] \<Longrightarrow> nonempty_tokens f = []"
  by (auto simp: nonempty_tokens_def category_tokens_def)

subsection \<open>The rendered report\<close>

lemma report_returns:
  assumes "list_all confidence_parses files"
  shows "generate_markdown_report now files =
           Inr (join ''\<newline>''
                 ([''# Document Classification Report'',
                   ''\<newline>Generated: '' @ now,
                   ''\<newline>Total Documents: '' @ str_int (int (length files)),
                   ''\<newline>## Summary''] @
                  [''\<newline>### Categories''] @
                  map tally_line (fold (\<lambda>f. fold count_category (category_tokens f)) files []) @
                  [''\<newline>### Confidence Levels''] @
                  map tally_line [(''HIGH'', bucket_count ''HIGH'' files),
                                  (''MEDIUM'', bucket_count ''MEDIUM'' files),
                                  (''LOW'', bucket_count ''LOW'' files)]))"
proof -
  from assms have "\<forall>f \<in> set files. \<not> isl (confidence_of f)"
    by (simp add: list_all_iff confidence_parses_iff)
  from tally_files_returns [OF this, of "[]" 0 0 0] show ?thesis
    by (simp add: generate_markdown_report_def initial_tallies_def)
qed


lemma report_header:
  assumes "list_all confidence_parses files"
  shows "\<exists>rest. generate_markdown_report now files =
           Inr (''# Document Classification Report\<newline>\<newline>Generated: '' @ now @
                ''\<newline>\<newline>Total Documents: '' @ str_int (int (length files)) @
                ''\<newline>\<newline>## Summary\<newline>'' @ rest)"
  by (simp add: report_returns [OF assms])


section \<open>Properties of the aggregator\<close>

lemmas eval_defs =
  record_of_def props_of_def confidence_of_def confidence_parses_def category_tokens_def
  nonempty_tokens_def all_tokens_def in_bucket_def spec_bucket_def bucket_count_def
  py_int_def strip_def is_space_def is_digit_def digit_val_def
  tally_file_def increment_def dict_item_def dict_get_def count_category_def
  initial_tallies_def generate_markdown_report_def tally_line_def str_int_def str_nat.simps digit_chars




text \<open>
  C2. For a record whose \<^verbatim>\<open>overall_confidence\<close> parses as the integer \<open>c\<close>, one
  turn of the loop increments exactly the level of the specification's thresholds
  and leaves the two others: HIGH for \<open>c \<ge> 90\<close>, MEDIUM for \<open>70 \<le> c < 90\<close>, LOW
  for \<open>c < 70\<close>; 90 is HIGH, 70 is MEDIUM, 69 is LOW.
\<close>

theorem confidence_bucket_thresholds:
  assumes "props_of f ''overall_confidence'' = Some s" and "py_int s = Inr c"
  shows "tally_file f (categories, [(''HIGH'', h), (''MEDIUM'', m), (''LOW'', l)]) =
           Inr (fold count_category (category_tokens f) categories,
                map (\<lambda>(level, n). (level, if level = spec_bucket c then n + 1 else n))
                  [(''HIGH'', h), (''MEDIUM'', m), (''LOW'', l)])
         \<and> (c \<ge> 90 \<longrightarrow> spec_bucket c = ''HIGH'')
         \<and> (70 \<le> c \<and> c < 90 \<longrightarrow> spec_bucket c = ''MEDIUM'')
         \<and> (c < 70 \<longrightarrow> spec_bucket c = ''LOW'')
         \<and> spec_bucket 90 = ''HIGH'' \<and> spec_bucket 70 = ''MEDIUM'' \<and> spec_bucket 69 = ''LOW''"
proof -
  from assms have "confidence_of f = Inr c"
    by (simp add: confidence_of_def)
  then show ?thesis
    by (simp add: tally_file_step spec_bucket_def)
qed

theorem confidence_bucket_thresholds_witness:
  "tally_file (record_of [(''overall_confidence'', ''90'')]) initial_tallies =
     Inr ([], [(''HIGH'', 1), (''MEDIUM'', 0), (''LOW'', 0)])
   \<and> tally_file (record_of [(''overall_confidence'', ''70'')]) initial_tallies =
     Inr ([], [(''HIGH'', 0), (''MEDIUM'', 1), (''LOW'', 0)])
   \<and> tally_file (record_of [(''overall_confidence'', ''69'')]) initial_tallies =
     Inr ([], [(''HIGH'', 0), (''MEDIUM'', 0), (''LOW'', 1)])"
proof -
  have p: "\<And>s. props_of (record_of [(''overall_confidence'', s)]) ''overall_confidence'' = Some s"
    by (simp add: props_of_def record_of_def)
  have t: "\<And>s. category_tokens (record_of [(''overall_confidence'', s)]) = [[]]"
    by (simp add: category_tokens_def props_of_def record_of_def)
  have i: "py_int ''90'' = Inr 90" "py_int ''70'' = Inr 70" "py_int ''69'' = Inr 69"
    by (simp_all add: py_int_def strip_def is_space_def is_digit_def digit_val_def)
  from confidence_bucket_thresholds [OF p i(1), of "[]" 0 0 0]
    confidence_bucket_thresholds [OF p i(2), of "[]" 0 0 0]
    confidence_bucket_thresholds [OF p i(3), of "[]" 0 0 0]
  show ?thesis
    by (simp add: t initial_tallies_def count_category_def)
qed

text \<open>
  C3. The category tally that the loop ends with maps every token to the number of
  times it occurs as a non-empty token of the comma-split \<^verbatim>\<open>categories\<close>
  properties, counted per occurrence over the whole record list, and has no entry
  for a token that does not occur; every key is there once. A record whose
  \<^verbatim>\<open>categories\<close> is missing or empty has no token.
\<close>

theorem category_tally_counts_tokens:
  assumes "tally_files files initial_tallies = Inr (categories, confidence_levels)"
  shows "map_of categories tok =
           (if (\<Sum>f\<leftarrow>files. count_list (nonempty_tokens f) tok) = 0 then None
            else Some (int (\<Sum>f\<leftarrow>files. count_list (nonempty_tokens f) tok)))
         \<and> distinct (map fst categories)
         \<and> (props_of g ''categories'' = None \<or> props_of g ''categories'' = Some [] \<longrightarrow>
              nonempty_tokens g = [])"
proof -
  have total: "count_list (all_tokens files) tok =
                 (\<Sum>f\<leftarrow>files. count_list (nonempty_tokens f) tok)"
    by (simp add: all_tokens_def count_list_concat comp_def)
  have "tok \<in> set (all_tokens files) \<longleftrightarrow> count_list (all_tokens files) tok \<noteq> 0"
    by (simp add: count_list_0_iff)
  with category_tally(1) [OF assms, of tok] category_tally(2) [OF assms] total
  have "map_of categories tok =
           (if (\<Sum>f\<leftarrow>files. count_list (nonempty_tokens f) tok) = 0 then None
            else Some (int (\<Sum>f\<leftarrow>files. count_list (nonempty_tokens f) tok)))"
    and "distinct (map fst categories)"
    by simp_all
  moreover have "props_of g ''categories'' = None \<or> props_of g ''categories'' = Some [] \<longrightarrow>
              nonempty_tokens g = []"
    using no_tokens [of g] by blast
  ultimately show ?thesis by simp
qed

theorem category_tally_witness:
  "tally_files
     [record_of [(''overall_confidence'', ''95''), (''categories'', ''a,b'')],
      record_of [(''overall_confidence'', ''70''), (''categories'', ''a'')],
      record_of [(''overall_confidence'', ''50''), (''categories'', '''')]] initial_tallies =
     Inr ([(''a'', 2), (''b'', 1)], [(''HIGH'', 1), (''MEDIUM'', 1), (''LOW'', 1)])
   \<and> map_of [(''a'', 2), (''b'', 1 :: int)] ''a'' = Some 2
   \<and> (\<Sum>f\<leftarrow>[record_of [(''overall_confidence'', ''95''), (''categories'', ''a,b'')],
            record_of [(''overall_confidence'', ''70''), (''categories'', ''a'')],
            record_of [(''overall_confidence'', ''50''), (''categories'', '''')]].
          count_list (nonempty_tokens f) ''a'') = 2"
proof -
  let ?files = "[record_of [(''overall_confidence'', ''95''), (''categories'', ''a,b'')],
      record_of [(''overall_confidence'', ''70''), (''categories'', ''a'')],
      record_of [(''overall_confidence'', ''50''), (''categories'', '''')]]"
  have run: "tally_files ?files initial_tallies =
     Inr ([(''a'', 2), (''b'', 1)], [(''HIGH'', 1), (''MEDIUM'', 1), (''LOW'', 1)])"
    by (simp add: eval_defs)
  have occurrences: "(\<Sum>f\<leftarrow>?files. count_list (nonempty_tokens f) ''a'') = 2"
    by (simp add: eval_defs)
  from category_tally_counts_tokens [OF run, where tok = "''a''" and g = "record_of []"]
  have "map_of [(''a'', 2), (''b'', 1 :: int)] ''a'' = Some 2"
    unfolding occurrences by simp
  with run occurrences show ?thesis by simp
qed

text \<open>
  C4. The report states the number of input records: it opens with the title, the
  time it was generated and the line \<^verbatim>\<open>Total Documents: n\<close>, where \<open>n\<close> is the
  decimal string of the length of the record list, the string that reads back as
  this length.
\<close>

theorem total_count_is_input_length:
  assumes "list_all confidence_parses files"
  shows "(\<exists>rest. generate_markdown_report now files =
            Inr (''# Document Classification Report\<newline>\<newline>Generated: '' @ now @
                 ''\<newline>\<newline>Total Documents: '' @ str_int (int (length files)) @
                 ''\<newline>\<newline>## Summary\<newline>'' @ rest))
         \<and> py_int (str_int (int (length files))) = Inr (int (length files))"
proof
  from assms show "\<exists>rest. generate_markdown_report now files =
            Inr (''# Document Classification Report\<newline>\<newline>Generated: '' @ now @
                 ''\<newline>\<newline>Total Documents: '' @ str_int (int (length files)) @
                 ''\<newline>\<newline>## Summary\<newline>'' @ rest)"
    by (rule report_header)
  show "py_int (str_int (int (length files))) = Inr (int (length files))"
    by (rule py_int_str_int)
qed

theorem total_count_witness:
  "list_all confidence_parses
     [record_of [(''overall_confidence'', ''95''), (''categories'', ''a,b'')],
      record_of [(''overall_confidence'', ''70''), (''categories'', ''a'')],
      record_of [(''overall_confidence'', ''50''), (''categories'', '''')]]
   \<and> (\<exists>rest. generate_markdown_report ''2025-03-18T00:00:00''
         [record_of [(''overall_confidence'', ''95''), (''categories'', ''a,b'')],
          record_of [(''overall_confidence'', ''70''), (''categories'', ''a'')],
          record_of [(''overall_confidence'', ''50''), (''categories'', '''')]] =
        Inr (''# Document Classification Report\<newline>\<newline>Generated: 2025-03-18T00:00:00\<newline>\<newline>Total Documents: 3\<newline>\<newline>## Summary\<newline>'' @ rest))"
proof -
  let ?files = "[record_of [(''overall_confidence'', ''95''), (''categories'', ''a,b'')],
      record_of [(''overall_confidence'', ''70''), (''categories'', ''a'')],
      record_of [(''overall_confidence'', ''50''), (''categories'', '''')]]"
  have parses: "list_all confidence_parses ?files"
    by (simp add: eval_defs)
  have three: "str_int (int (length ?files)) = ''3''"
    by (simp add: str_int_def str_nat.simps digit_chars)
  from total_count_is_input_length [OF parses, of "''2025-03-18T00:00:00''"]
  have "\<exists>rest. generate_markdown_report ''2025-03-18T00:00:00'' ?files =
        Inr (''# Document Classification Report\<newline>\<newline>Generated: 2025-03-18T00:00:00\<newline>\<newline>Total Documents: 3\<newline>\<newline>## Summary\<newline>'' @ rest)"
    unfolding three by simp
  with parses show ?thesis by simp
qed

text \<open>A record whose confidence is read is in exactly one of the three buckets.\<close>

lemma one_bucket:
  assumes "confidence_parses f"
  shows "length (filter (\<lambda>level. in_bucket level f) [''HIGH'', ''MEDIUM'', ''LOW'']) = 1"
proof -
  from assms obtain c where c: "confidence_of f = Inr c"
    by (cases "confidence_of f") (auto simp: confidence_parses_iff)
  show ?thesis
    by (simp add: in_bucket_cases [OF c])
qed

text \<open>
  C5. The confidence tally that the loop ends with holds, for each of HIGH, MEDIUM
  and LOW, the number of records in that bucket; every record is in exactly one of
  the three, and the three counts add up to the number of records.
\<close>

theorem confidence_buckets_partition:
  assumes "list_all confidence_parses files"
  shows "(\<exists>categories. tally_files files initial_tallies =
            Inr (categories, [(''HIGH'', bucket_count ''HIGH'' files),
                              (''MEDIUM'', bucket_count ''MEDIUM'' files),
                              (''LOW'', bucket_count ''LOW'' files)]))
         \<and> bucket_count ''HIGH'' files + bucket_count ''MEDIUM'' files + bucket_count ''LOW'' files
             = int (length files)
         \<and> list_all (\<lambda>f. length (filter (\<lambda>level. in_bucket level f)
                                     [''HIGH'', ''MEDIUM'', ''LOW'']) = 1) files"
proof -
  from assms have p: "\<forall>f \<in> set files. \<not> isl (confidence_of f)"
    by (simp add: list_all_iff confidence_parses_iff)
  from tally_files_returns [OF p, of "[]" 0 0 0]
  have "\<exists>categories. tally_files files initial_tallies =
            Inr (categories, [(''HIGH'', bucket_count ''HIGH'' files),
                              (''MEDIUM'', bucket_count ''MEDIUM'' files),
                              (''LOW'', bucket_count ''LOW'' files)])"
    by (simp add: initial_tallies_def)
  moreover note bucket_count_sum [OF p]
  moreover from assms have "list_all (\<lambda>f. length (filter (\<lambda>level. in_bucket level f)
                                     [''HIGH'', ''MEDIUM'', ''LOW'']) = 1) files"
    unfolding list_all_iff by (blast intro: one_bucket)
  ultimately show ?thesis by simp
qed

theorem confidence_buckets_witness:
  "list_all confidence_parses
     [record_of [(''overall_confidence'', ''95''), (''categories'', ''a,b'')],
      record_of [(''overall_confidence'', ''70''), (''categories'', ''a'')],
      record_of [(''overall_confidence'', ''50''), (''categories'', '''')],
      record_of []]
   \<and> (\<exists>categories. tally_files
         [record_of [(''overall_confidence'', ''95''), (''categories'', ''a,b'')],
          record_of [(''overall_confidence'', ''70''), (''categories'', ''a'')],
          record_of [(''overall_confidence'', ''50''), (''categories'', '''')],
          record_of []] initial_tallies =
        Inr (categories, [(''HIGH'', 1), (''MEDIUM'', 1), (''LOW'', 2)]))"
proof -
  let ?files = "[record_of [(''overall_confidence'', ''95''), (''categories'', ''a,b'')],
      record_of [(''overall_confidence'', ''70''), (''categories'', ''a'')],
      record_of [(''overall_confidence'', ''50''), (''categories'', '''')],
      record_of []]"
  have parses: "list_all confidence_parses ?files"
    by (simp add: eval_defs)
  have counts: "bucket_count ''HIGH'' ?files = 1" "bucket_count ''MEDIUM'' ?files = 1"
    "bucket_count ''LOW'' ?files = 2"
    by (simp_all add: eval_defs)
  from confidence_buckets_partition [OF parses] parses
  show ?thesis unfolding counts by simp
qed



section \<open>Properties of the endpoints\<close>




text \<open>
  C8. In each of the three handlers, a search that raises ends the request with
  \<^verbatim>\<open>HTTPException(status_code=500, detail=str(e))\<close> for the exception \<open>e\<close> of
  the collaborator (for \<^verbatim>\<open>/status\<close>: the first search, or the second after the
  first has answered).
\<close>

theorem collaborator_failure_gives_http_500:
  assumes "get_drive_service env = Inr service"
  shows "(fst (service (documents_request cfg folder_id page_token page_size include_processed)
                 (remote d)) = Inl e \<longrightarrow>
            fst (list_documents cfg env folder_id page_token page_size include_processed d) =
              Inl (HTTPException 500 (str_exn e)))
       \<and> (fst (service (total_request cfg) (remote d)) = Inl e \<longrightarrow>
            fst (get_status cfg env now d) = Inl (HTTPException 500 (str_exn e)))
       \<and> (service (total_request cfg) (remote d) = (Inr total_response, w) \<and>
          fst (service classified_request w) = Inl e \<longrightarrow>
            fst (get_status cfg env now d) = Inl (HTTPException 500 (str_exn e)))
       \<and> (fst (service (report_request start_date end_date) (remote d)) = Inl e \<longrightarrow>
            fst (get_report json_dumps env now_report now fmt start_date end_date d) =
              Inl (HTTPException 500 (str_exn e)))"
  using assms
  by (auto simp: list_documents_def get_status_def get_report_def execute_def
           split: prod.splits sum.splits)

theorem collaborator_failure_witness:
  "fst (list_documents example_config (example_credentials failing_store) None None 50 False
          \<lparr>issued = [], remote = 0\<rparr>) = Inl (HTTPException 500 ''API Error'')
   \<and> fst (get_status example_config (example_credentials failing_store) ''t1''
          \<lparr>issued = [], remote = 0\<rparr>) = Inl (HTTPException 500 ''API Error'')
   \<and> fst (get_status example_config (example_credentials fails_second) ''t1''
          \<lparr>issued = [], remote = 0\<rparr>) = Inl (HTTPException 500 ''API Error'')
   \<and> fst (get_report (\<lambda>fs. []) (example_credentials failing_store) ''t0'' ''t1'' ''markdown''
          None None \<lparr>issued = [], remote = 0\<rparr>) = Inl (HTTPException 500 ''API Error'')"
proof -
  let ?d = "\<lparr>issued = [], remote = 0 :: nat\<rparr>"
  have svc: "get_drive_service (example_credentials s) = Inr s" for s
    by (simp add: get_drive_service_def example_credentials_def)
  have raises: "fst (failing_store request (remote ?d)) = Inl (Raised ''API Error'')" for request
    by (simp add: failing_store_def)
  have first: "fails_second (total_request example_config) (remote ?d) =
                 (Inr \<lparr>files_entry = None, nextPageToken = None\<rparr>, 1)"
    by (simp add: fails_second_def)
  have second: "fst (fails_second classified_request 1) = Inl (Raised ''API Error'')"
    by (simp add: fails_second_def)
  from collaborator_failure_gives_http_500 [OF svc, of failing_store example_config None None 50
      False ?d "Raised ''API Error''" "''t1''" undefined undefined None None "\<lambda>fs. []" "''t0''"
      "''markdown''"] raises
  have a: "fst (list_documents example_config (example_credentials failing_store) None None 50 False
          ?d) = Inl (HTTPException 500 ''API Error'')"
    and b: "fst (get_status example_config (example_credentials failing_store) ''t1'' ?d) =
          Inl (HTTPException 500 ''API Error'')"
    and c: "fst (get_report (\<lambda>fs. []) (example_credentials failing_store) ''t0'' ''t1'' ''markdown''
          None None ?d) = Inl (HTTPException 500 ''API Error'')"
    by simp_all
  from collaborator_failure_gives_http_500 [OF svc, of fails_second example_config None None 50
      False ?d "Raised ''API Error''" "''t1''" "\<lparr>files_entry = None, nextPageToken = None\<rparr>" 1
      None None "\<lambda>fs. []" "''t0''" "''markdown''"] first second
  have "fst (get_status example_config (example_credentials fails_second) ''t1'' ?d) =
          Inl (HTTPException 500 ''API Error'')"
    by simp
  with a b c show ?thesis by simp
qed

text \<open>
  C9. When the token file is missing, or loading the credentials from it raises,
  each of the three handlers ends with the failure of \<^verbatim>\<open>get_drive_service\<close>
  (for a missing file: status 500, \<^verbatim>\<open>Google OAuth token not found\<close>) and leaves
  the collaborator as it was: no search has been executed.
\<close>

theorem missing_credentials_fail_before_any_search:
  assumes "\<not> token_exists env \<or> isl (load_service env)"
  shows "\<exists>failure.
           get_drive_service env = Inl failure
         \<and> (\<not> token_exists env \<longrightarrow>
              failure = HTTPException 500 ''Google OAuth token not found'')
         \<and> (token_exists env \<longrightarrow> (\<exists>e. load_service env = Inl e \<and> failure = Unhandled e))
         \<and> list_documents cfg env folder_id page_token page_size include_processed d =
              (Inl failure, d)
         \<and> get_status cfg env now d = (Inl failure, d)
         \<and> get_report json_dumps env now_report now fmt start_date end_date d = (Inl failure, d)"
  using assms
  by (cases "load_service env")
     (auto simp: get_drive_service_def list_documents_def get_status_def get_report_def)

theorem missing_credentials_witness:
  "list_documents example_config \<lparr>token_exists = False, load_service = Inr growing_store\<rparr>
       None None 50 False \<lparr>issued = [], remote = 0\<rparr> =
     (Inl (HTTPException 500 ''Google OAuth token not found''), \<lparr>issued = [], remote = 0\<rparr>)
   \<and> get_status example_config
       \<lparr>token_exists = True, load_service = Inl (Raised ''Expecting value'')\<rparr> ''t1''
       \<lparr>issued = [], remote = 0 :: nat\<rparr> =
     (Inl (Unhandled (Raised ''Expecting value'')), \<lparr>issued = [], remote = 0\<rparr>)"
proof -
  let ?d = "\<lparr>issued = [], remote = 0 :: nat\<rparr>"
  let ?missing = "\<lparr>token_exists = False, load_service = Inr growing_store\<rparr>"
  let ?unreadable = "\<lparr>token_exists = True, load_service = Inl (Raised ''Expecting value'') :: py_exn + nat service\<rparr>"
  have m: "\<not> token_exists ?missing \<or> isl (load_service ?missing)"
    by simp
  have u: "\<not> token_exists ?unreadable \<or> isl (load_service ?unreadable)"
    by simp
  from missing_credentials_fail_before_any_search
    [OF m, where cfg = example_config and folder_id = None and page_token = None
       and page_size = 50 and include_processed = False and d = ?d]
  have a: "list_documents example_config ?missing None None 50 False ?d =
     (Inl (HTTPException 500 ''Google OAuth token not found''), ?d)"
    by auto
  from missing_credentials_fail_before_any_search
    [OF u, where cfg = example_config and now = "''t1''" and d = ?d]
  have "get_status example_config ?unreadable ''t1'' ?d =
     (Inl (Unhandled (Raised ''Expecting value'')), ?d)"
    by auto
  with a show ?thesis by simp
qed

text \<open>
  C10. When both searches of \<^verbatim>\<open>GET /status\<close> answer, the response has the two
  lengths as \<^verbatim>\<open>total_documents\<close> and \<^verbatim>\<open>classified_count\<close>, and
  \<^verbatim>\<open>pending_count\<close> is their difference: negative when more records are
  classified than there are in total, and always such that the total is the
  classified plus the pending count.
\<close>

theorem pending_count_is_difference:
  assumes "get_drive_service env = Inr service"
    and "service (total_request cfg) (remote d) = (Inr total_response, w)"
    and "service classified_request w = (Inr classified_response, w')"
  shows "\<exists>r. fst (get_status cfg env now d) = Inr r
             \<and> total_documents r = int (length (files_of total_response))
             \<and> classified_count r = int (length (files_of classified_response))
             \<and> pending_count r = total_documents r - classified_count r
             \<and> (classified_count r > total_documents r \<longrightarrow> pending_count r < 0)
             \<and> total_documents r = classified_count r + pending_count r"
  using assms by (simp add: get_status_def execute_def Let_def)

theorem pending_count_witness:
  "fst (get_status example_config (example_credentials growing_store) ''t1''
          \<lparr>issued = [], remote = 0\<rparr>) =
     Inr \<lparr>total_documents = 1, classified_count = 2, pending_count = - 1, last_update = ''t1''\<rparr>"
proof -
  let ?d = "\<lparr>issued = [], remote = 0 :: nat\<rparr>"
  let ?one = "\<lparr>files_entry = Some [record_of []], nextPageToken = None\<rparr>"
  let ?two = "\<lparr>files_entry = Some [record_of [], record_of []], nextPageToken = None\<rparr>"
  have svc: "get_drive_service (example_credentials growing_store) = Inr growing_store"
    by (simp add: get_drive_service_def example_credentials_def)
  have first: "growing_store (total_request example_config) (remote ?d) = (Inr ?one, 1)"
    by (simp add: growing_store_def)
  have second: "growing_store classified_request 1 = (Inr ?two, 2)"
    by (simp add: growing_store_def)
  have lens: "int (length (files_of ?one)) = 1" "int (length (files_of ?two)) = 2"
    by (simp_all add: files_of_def)
  from pending_count_is_difference [OF svc first second, where now = "''t1''"]
  obtain r where r: "fst (get_status example_config (example_credentials growing_store) ''t1'' ?d) = Inr r"
    and t: "total_documents r = int (length (files_of ?one))"
    and c: "classified_count r = int (length (files_of ?two))"
    and p: "pending_count r = total_documents r - classified_count r"
    by blast
  have counts: "total_documents r = 1" "classified_count r = 2" "pending_count r = - 1"
    unfolding p t c lens by simp_all
  have "last_update r = ''t1''"
    using r svc first second by (auto simp: get_status_def execute_def Let_def)
  with counts
  have "r = \<lparr>total_documents = 1, classified_count = 2, pending_count = - 1, last_update = ''t1''\<rparr>"
    by simp
  with r show ?thesis by simp
qed

end
